theory Spec2Isabelle
  imports
    Main
    "HOL-Library.Char_ord"
    "HOL-Library.List_Lexorder"
    "HOL-Library.Signed_Division"
    "HOL-Library.Sublist"
begin

section \<open>Go primitives used by googlespreadsheet.go\<close>

text \<open>
  A Go \<^verbatim>\<open>int\<close> is modelled as an \<^typ>\<open>int\<close>; on the usual 64-bit platforms its
  arithmetic wraps in two's complement at 64 bits, which \<open>go_add\<close> writes out.
  Go's \<^verbatim>\<open>/\<close> and \<^verbatim>\<open>%\<close> on integers truncate towards zero: they are \<open>sdiv\<close> and
  \<open>smod\<close>, not HOL's flooring \<open>div\<close> and \<open>mod\<close>.
\<close>

definition go_add :: "int \<Rightarrow> int \<Rightarrow> int" where
  "go_add a b = signed_take_bit 63 (a + b)"

text \<open>
  The conversion \<^verbatim>\<open>string(i)\<close> of an integer gives the UTF-8 encoding of the code
  point \<open>i\<close>, and of U+FFFD when \<open>i\<close> is no valid code point. A \<^typ>\<open>string\<close> holds the
  bytes of the Go string.
\<close>

definition string_of_int :: "int \<Rightarrow> string" where
  "string_of_int r =
     (if r < 0 \<or> 1114111 < r \<or> (55296 \<le> r \<and> r \<le> 57343)
        then [char_of (239::int), char_of (191::int), char_of (189::int)]
      else if r \<le> 127 then [char_of r]
      else if r \<le> 2047 then [char_of (192 + r div 64), char_of (128 + r mod 64)]
      else if r \<le> 65535 then
        [char_of (224 + r div 4096), char_of (128 + (r div 64) mod 64),
         char_of (128 + r mod 64)]
      else
        [char_of (240 + r div 262144), char_of (128 + (r div 4096) mod 64),
         char_of (128 + (r div 64) mod 64), char_of (128 + r mod 64)])"

text \<open>\<^verbatim>\<open>strconv.Itoa\<close>: the decimal text of an integer, with a minus sign when negative.\<close>

fun digits :: "nat \<Rightarrow> string" where
  "digits n =
     (if n < 10 then [char_of (48 + n)]
      else digits (n div 10) @ [char_of (48 + n mod 10)])"

declare digits.simps [simp del]

definition Itoa :: "int \<Rightarrow> string" where
  "Itoa i = (if i < 0 then CHR ''-'' # digits (nat (- i)) else digits (nat i))"

section \<open>Column addresses\<close>

text \<open>
  \<^verbatim>\<open>func ColAddress(col int) string\<close>. The code of \<^verbatim>\<open>'A'\<close> is 65.
\<close>

definition ColAddress :: "int \<Rightarrow> string" where
  "ColAddress col =
     (if col \<ge> 675 \<or> col < 1 then ''''
      else if col \<le> 26 then string_of_int (65 + col - 1)
      else string_of_int (65 + col sdiv 26 - 1) @ string_of_int (65 + col smod 26 - 1))"

text \<open>
  The address codec as the specification words it: the character at an offset from
  \<open>A\<close>, one letter on [1, 26], two letters on [27, 674] from the floored quotient and
  the remainder, and the empty string elsewhere.
\<close>

definition char_at_offset_from_A :: "int \<Rightarrow> char" where
  "char_at_offset_from_A k = char_of (of_char CHR ''A'' + k)"

definition spec_columnAddress :: "int \<Rightarrow> string" where
  "spec_columnAddress col =
     (if 1 \<le> col \<and> col \<le> 26 then [char_at_offset_from_A (col - 1)]
      else if 27 \<le> col \<and> col \<le> 674 then
        [char_at_offset_from_A (col div 26 - 1), char_at_offset_from_A (col mod 26 - 1)]
      else '''')"

definition is_letter :: "char \<Rightarrow> bool" where
  "is_letter c \<longleftrightarrow> (65::nat) \<le> of_char c \<and> of_char c \<le> (90::nat)"

section \<open>Dynamic values, maps and errors\<close>

text \<open>
  A value held in an \<^verbatim>\<open>interface{}\<close>, by the cases that \<^verbatim>\<open>sql.NullString.Scan\<close>
  tells apart: nil, the string kind, a byte slice, the boolean kind, the signed and
  the unsigned integer kinds. Floating point is not modelled: a float or a
  \<^verbatim>\<open>time.Time\<close> is carried as \<open>VFormatted\<close> with the text that
  \<^verbatim>\<open>strconv.FormatFloat\<close> or \<^verbatim>\<open>Time.Format\<close> gives it. \<open>VOther\<close> is a value of any
  other dynamic type, with the name of that type.
\<close>

datatype go_value =
    VNil
  | VString string
  | VBytes string
  | VBool bool
  | VInt int
  | VUint nat
  | VFormatted string
  | VOther string

text \<open>A Go \<^verbatim>\<open>error\<close> is modelled by its message.\<close>

datatype go_error = Error string

text \<open>
  A \<^verbatim>\<open>map[string]interface{}\<close> is the list of its entries in the order in which
  \<^verbatim>\<open>range\<close> visits them (an order Go leaves open); the keys of a map are distinct.
  Indexing a map at a missing key gives the zero value, nil.
\<close>

type_synonym go_map = "(string \<times> go_value) list"

definition map_index :: "go_map \<Rightarrow> string \<Rightarrow> go_value" where
  "map_index m k = (case map_of m k of None \<Rightarrow> VNil | Some v \<Rightarrow> v)"

text \<open>
  \<^verbatim>\<open>sql.NullString\<close> and its \<^verbatim>\<open>Scan\<close>: nil gives the empty string and no error; the
  supported kinds give their text; any other value gives an error and leaves the
  string as it was.
\<close>

record NullString =
  String :: string
  Valid :: bool

definition FormatBool :: "bool \<Rightarrow> string" where
  "FormatBool b = (if b then ''true'' else ''false'')"

definition Scan :: "NullString \<Rightarrow> go_value \<Rightarrow> NullString \<times> go_error option" where
  "Scan ns v =
     (case v of
        VNil \<Rightarrow> (\<lparr>String = [], Valid = False\<rparr>, None)
      | VString s \<Rightarrow> (\<lparr>String = s, Valid = True\<rparr>, None)
      | VBytes s \<Rightarrow> (\<lparr>String = s, Valid = True\<rparr>, None)
      | VBool b \<Rightarrow> (\<lparr>String = FormatBool b, Valid = True\<rparr>, None)
      | VInt i \<Rightarrow> (\<lparr>String = Itoa i, Valid = True\<rparr>, None)
      | VUint n \<Rightarrow> (\<lparr>String = digits n, Valid = True\<rparr>, None)
      | VFormatted s \<Rightarrow> (\<lparr>String = s, Valid = True\<rparr>, None)
      | VOther ty \<Rightarrow>
          (ns\<lparr>Valid := True\<rparr>,
           Some (Error (''unsupported Scan, storing driver.Value type '' @ ty
                        @ '' into type *string''))))"

section \<open>Configuration, the remote service, and what an operation does\<close>

datatype http_Client = HttpClient nat

datatype jwt_Config = JwtConfig nat

record Config =
  GoogleCredentials :: string
  SpreadsheetID :: string
  Client :: "http_Client option"

record ValueRange =
  MajorDimension :: string
  Values :: "go_value list list"

text \<open>
  The libraries and the remote service are parameters of the model:
  \<^verbatim>\<open>google.JWTConfigFromJSON\<close>, the client of a JWT configuration (never nil), and the
  \<^verbatim>\<open>Do\<close> of the update, get and clear calls. The update call answers with an HTTP
  status code, the get call with the values of the range.
\<close>

record world =
  JWTConfigFromJSON :: "string \<Rightarrow> go_error + jwt_Config"
  jwt_Client :: "jwt_Config \<Rightarrow> http_Client"
  Update_Do :: "http_Client \<Rightarrow> string \<Rightarrow> string \<Rightarrow> ValueRange \<Rightarrow> string \<Rightarrow> go_error + int"
  Get_Do :: "http_Client \<Rightarrow> string \<Rightarrow> string \<Rightarrow> go_error + go_value list list"
  Clear_Do :: "http_Client \<Rightarrow> string \<Rightarrow> string \<Rightarrow> go_error option"

text \<open>
  The calls an operation makes, in order: an authentication with the credential
  bytes, the three service calls with their arguments, and a \<^verbatim>\<open>fmt.Printf\<close> with its
  format string.
\<close>

datatype event =
    Auth string
  | Update http_Client string string ValueRange string
  | Get http_Client string string
  | Clear http_Client string string
  | Printf string

text \<open>An operation returns, or panics (a nil pointer dereference).\<close>

datatype 'a outcome = Returns 'a | Panics

definition googleAuth :: "world \<Rightarrow> string \<Rightarrow> go_error + http_Client" where
  "googleAuth w confData =
     (case JWTConfigFromJSON w confData of
        Inl err \<Rightarrow> Inl err
      | Inr conf \<Rightarrow> Inr (jwt_Client w conf))"

text \<open>
  \<^verbatim>\<open>sheets.New\<close> fails on a nil client only; the service it returns is used through
  its client.
\<close>

definition sheets_New :: "http_Client option \<Rightarrow> go_error + http_Client" where
  "sheets_New client =
     (case client of None \<Rightarrow> Inl (Error ''client is nil'') | Some c \<Rightarrow> Inr c)"

text \<open>
  The block \<^verbatim>\<open>if googleConf.Client == nil { googleConf.Client, err = googleAuth(...) ... }\<close>
  that opens every operation (lines 47-52, 131-136, 162-167, 189-194): the error
  on which the operation returns, if any, the configuration and the calls made.
\<close>

definition check_google_auth :: "world \<Rightarrow> Config \<Rightarrow> go_error option \<times> Config \<times> event list" where
  "check_google_auth w googleConf =
     (if Client googleConf = None then
        (case googleAuth w (GoogleCredentials googleConf) of
           Inl err \<Rightarrow>
             (Some err, googleConf\<lparr>Client := None\<rparr>, [Auth (GoogleCredentials googleConf)])
         | Inr c \<Rightarrow>
             (None, googleConf\<lparr>Client := Some c\<rparr>, [Auth (GoogleCredentials googleConf)]))
      else (None, googleConf, []))"

definition ClearRange ::
  "world \<Rightarrow> Config \<Rightarrow> string \<Rightarrow> go_error option outcome \<times> Config \<times> event list" where
  "ClearRange w googleConf theRange =
     (case check_google_auth w googleConf of
        (Some err, conf, tr) \<Rightarrow> (Returns (Some err), conf, tr)
      | (None, conf, tr) \<Rightarrow>
          (case sheets_New (Client conf) of
             Inl err \<Rightarrow> (Returns (Some err), conf, tr)
           | Inr srv \<Rightarrow>
               (Returns (Clear_Do w srv (SpreadsheetID conf) theRange), conf,
                tr @ [Clear srv (SpreadsheetID conf) theRange])))"

text \<open>Lines 120-123: the destination range of a write.\<close>

definition myRange :: "string \<Rightarrow> int \<Rightarrow> int \<Rightarrow> go_value list list \<Rightarrow> string" where
  "myRange destSheet destRow destCol data =
     (let nbRows = int (length data); nbCols = int (length (data ! 0)) in
      destSheet @ ''!'' @
      ColAddress destCol @ Itoa destRow @
      '':'' @
      ColAddress (go_add destCol nbCols) @ Itoa (go_add destRow nbRows))"

definition DataArrayToGoogleSpreadSheet ::
  "world \<Rightarrow> Config \<Rightarrow> string \<Rightarrow> int \<Rightarrow> int \<Rightarrow> go_value list list
   \<Rightarrow> go_error option outcome \<times> Config \<times> event list" where
  "DataArrayToGoogleSpreadSheet w googleConf destSheet destRow destCol data =
     (let nbRows = int (length data) in
      if nbRows = 0 then (Returns None, googleConf, [])
      else
        let nbCols = int (length (data ! 0)) in
        if nbCols = 0 then (Returns None, googleConf, [])
        else
          let rng = myRange destSheet destRow destCol data;
              valueRange = \<lparr>MajorDimension = ''ROWS'', Values = data\<rparr>
          in
            (case check_google_auth w googleConf of
               (Some err, conf, tr) \<Rightarrow> (Returns (Some err), conf, tr)
             | (None, conf, tr) \<Rightarrow>
                 (case sheets_New (Client conf) of
                    Inl _ \<Rightarrow> (Panics, conf, tr)
                  | Inr srv \<Rightarrow>
                      let tr' = tr @ [Update srv (SpreadsheetID conf) rng valueRange
                                        ''USER_ENTERED'']
                      in
                        (case Update_Do w srv (SpreadsheetID conf) rng valueRange
                                ''USER_ENTERED'' of
                           Inl err \<Rightarrow> (Returns (Some err), conf, tr')
                         | Inr HTTPStatusCode \<Rightarrow>
                             if HTTPStatusCode < 200 \<or> HTTPStatusCode > 299 then
                               (Returns (Some (Error (''Wrong http return code ''
                                   @ Itoa HTTPStatusCode @ '' ''))), conf, tr')
                             else (Returns None, conf, tr')))))"

text \<open>
  Lines 79-103 of \<^verbatim>\<open>DataMapToGoogleSpreadsheet\<close>: the keys of the first row, sorted,
  make the header; then each row is read at these keys, each cell through a fresh
  \<^verbatim>\<open>sql.NullString\<close> whose \<^verbatim>\<open>Scan\<close> error is dropped.
\<close>

definition valueData :: "go_map \<Rightarrow> go_map list \<Rightarrow> go_value list list" where
  "valueData first data =
     (let keys = sort (map fst first) in
      map VString keys #
      map (\<lambda>rowvalue.
             map (\<lambda>k. VString (String (fst (Scan \<lparr>String = [], Valid = False\<rparr>
                                              (map_index rowvalue k)))))
               keys)
        data)"

definition DataMapToGoogleSpreadsheet ::
  "world \<Rightarrow> Config \<Rightarrow> string \<Rightarrow> int \<Rightarrow> int \<Rightarrow> go_map list
   \<Rightarrow> go_error option outcome \<times> Config \<times> event list" where
  "DataMapToGoogleSpreadsheet w googleConf sheet row col data =
     (case data of
        [] \<Rightarrow> (Returns None, googleConf, [])
      | first # _ \<Rightarrow>
          if length first = 0 then (Returns None, googleConf, [])
          else DataArrayToGoogleSpreadSheet w googleConf sheet row col (valueData first data))"

definition GoogleSpreadsheetToDataArray ::
  "world \<Rightarrow> Config \<Rightarrow> string
   \<Rightarrow> (go_value list list option \<times> go_error option) outcome \<times> Config \<times> event list" where
  "GoogleSpreadsheetToDataArray w googleConf sourceRange =
     (case check_google_auth w googleConf of
        (Some err, conf, tr) \<Rightarrow> (Returns (None, Some err), conf, tr)
      | (None, conf, tr) \<Rightarrow>
          (case sheets_New (Client conf) of
             Inl _ \<Rightarrow> (Panics, conf, tr)
           | Inr srv \<Rightarrow>
               let tr' = tr @ [Get srv (SpreadsheetID conf) sourceRange] in
                 (case Get_Do w srv (SpreadsheetID conf) sourceRange of
                    Inl (Error msg) \<Rightarrow>
                      (Returns (None, Some (Error msg)), conf,
                       tr' @ [Printf (''ERROR received on Google Spreadsheet request : ''
                                      @ msg)])
                  | Inr result_Values \<Rightarrow>
                      if length result_Values = 0 then
                        (Returns (None, Some (Error ''Empty template'')), conf,
                         tr' @ [Printf (''No values received'' @ [CHR 0x0A])])
                      else (Returns (Some result_Values, None), conf, tr'))))"

definition ClearSheet ::
  "world \<Rightarrow> Config \<Rightarrow> string \<Rightarrow> go_error option outcome \<times> Config \<times> event list" where
  "ClearSheet w googleConf sourceRange =
     (case check_google_auth w googleConf of
        (Some err, conf, tr) \<Rightarrow> (Returns (Some err), conf, tr)
      | (None, conf, tr) \<Rightarrow>
          (case sheets_New (Client conf) of
             Inl _ \<Rightarrow> (Panics, conf, tr)
           | Inr srv \<Rightarrow>
               let tr' = tr @ [Clear srv (SpreadsheetID conf) sourceRange] in
                 (case Clear_Do w srv (SpreadsheetID conf) sourceRange of
                    Some (Error msg) \<Rightarrow>
                      (Returns (Some (Error msg)), conf,
                       tr' @ [Printf (''ERROR received on Google Spreadsheet request : ''
                                      @ msg)])
                  | None \<Rightarrow> (Returns None, conf, tr'))))"

text \<open>The ranges of the update calls in a sequence of calls, and whether it authenticates.\<close>

fun update_ranges :: "event list \<Rightarrow> string list" where
  "update_ranges [] = []"
| "update_ranges (Update c sid r vr opt # es) = r # update_ranges es"
| "update_ranges (e # es) = update_ranges es"

fun is_Auth :: "event \<Rightarrow> bool" where
  "is_Auth (Auth creds) = True"
| "is_Auth e = False"

text \<open>
  What an operation may do to the configuration: with a client already there,
  nothing, and no authentication; otherwise nothing, or set the absent client.
\<close>

definition only_sets_Client :: "Config \<Rightarrow> Config \<Rightarrow> event list \<Rightarrow> bool" where
  "only_sets_Client c c' tr \<longleftrightarrow>
     (Client c \<noteq> None \<longrightarrow> c' = c \<and> \<not> list_ex is_Auth tr) \<and>
     (c' = c \<or> (Client c = None \<and> Client c' \<noteq> None \<and> c' = c\<lparr>Client := Client c'\<rparr>))"

text \<open>
  A service for the examples: the key \<open>key\<close> authenticates, the spreadsheet \<open>full\<close>
  holds one cell and takes updates, any other spreadsheet is empty and answers an
  update with status 404.
\<close>

definition example_world :: world where
  "example_world =
     \<lparr>JWTConfigFromJSON =
        (\<lambda>confData. if confData = ''key'' then Inr (JwtConfig 1)
                     else Inl (Error ''invalid key'')),
      jwt_Client = (\<lambda>conf. HttpClient 7),
      Update_Do = (\<lambda>c sid r vr opt. if sid = ''full'' then Inr 200 else Inr 404),
      Get_Do = (\<lambda>c sid r. if sid = ''full'' then Inr [[VString ''x'']] else Inr []),
      Clear_Do = (\<lambda>c sid r. None)\<rparr>"

definition example_conf :: "string \<Rightarrow> Config" where
  "example_conf sid = \<lparr>GoogleCredentials = ''key'', SpreadsheetID = sid, Client = None\<rparr>"

section \<open>Properties of the column addresses\<close>

lemma string_of_int_ascii: "0 \<le> r \<Longrightarrow> r \<le> 127 \<Longrightarrow> string_of_int r = [char_of r]"
  by (simp add: string_of_int_def)

lemma sdiv_pos: "0 \<le> (a::int) \<Longrightarrow> 0 < b \<Longrightarrow> a sdiv b = a div b"
  by (cases "a = 0") (simp_all add: signed_divide_int_def)

lemma smod_pos: "0 \<le> (a::int) \<Longrightarrow> 0 < b \<Longrightarrow> a smod b = a mod b"
  by (cases "a = 0") (simp_all add: signed_modulo_int_def)

lemma ColAddress_one_letter:
  "1 \<le> col \<Longrightarrow> col \<le> 26 \<Longrightarrow> ColAddress col = [char_of (64 + col)]"
  by (simp add: ColAddress_def string_of_int_ascii)

lemma ColAddress_two_letters:
  assumes "27 \<le> col" and "col \<le> 674"
  shows "ColAddress col = [char_of (64 + col div 26), char_of (64 + col mod 26)]"
proof -
  have q: "1 \<le> col div 26" "col div 26 \<le> 25"
    using assms by linarith+
  have r: "0 \<le> col mod 26" "col mod 26 < 26"
    by simp_all
  have "string_of_int (65 + col div 26 - 1) = [char_of (64 + col div 26)]"
    using q by (simp add: string_of_int_ascii)
  moreover have "string_of_int (65 + col mod 26 - 1) = [char_of (64 + col mod 26)]"
    using r by (simp add: string_of_int_ascii)
  ultimately show ?thesis
    using assms by (simp add: ColAddress_def sdiv_pos smod_pos)
qed

text \<open>
  C1: on every column index in [1, 674] the code's \<open>ColAddress\<close> agrees with the
  specification's piecewise definition: one character at offset \<open>col - 1\<close> from \<open>A\<close> on
  [1, 26]; on [27, 674] two characters, at offsets \<open>floor (col / 26) - 1\<close> and
  \<open>(col mod 26) - 1\<close> from \<open>A\<close>.
\<close>

theorem ColAddress_refines_spec:
  assumes "1 \<le> col" and "col \<le> 674"
  shows "ColAddress col = spec_columnAddress col"
proof (cases "col \<le> 26")
  case True
  then show ?thesis
    using assms
    by (simp add: ColAddress_one_letter spec_columnAddress_def char_at_offset_from_A_def)
next
  case False
  then have "27 \<le> col" by simp
  then show ?thesis
    using assms
    by (simp add: ColAddress_two_letters spec_columnAddress_def char_at_offset_from_A_def)
qed

theorem ColAddress_refines_spec_witness:
  "(1::int) \<le> 53 \<and> (53::int) \<le> 674 \<and> ColAddress 53 = spec_columnAddress 53
   \<and> spec_columnAddress 53 = ''BA''"
proof -
  have "ColAddress 53 = spec_columnAddress 53"
    using ColAddress_refines_spec [of 53] by simp
  moreover have "spec_columnAddress 53 = ''BA''"
    by (simp add: spec_columnAddress_def char_at_offset_from_A_def) code_simp
  ultimately show ?thesis by simp
qed

text \<open>
  C2: for every column index below 1 or from 675 on, \<open>ColAddress\<close> returns the empty
  string.
\<close>

theorem ColAddress_out_of_range:
  "col < 1 \<or> col \<ge> 675 \<Longrightarrow> ColAddress col = []"
  by (auto simp add: ColAddress_def)

theorem ColAddress_out_of_range_witness:
  "((0::int) < 1 \<or> (0::int) \<ge> 675) \<and> ColAddress 0 = []
   \<and> ((675::int) < 1 \<or> (675::int) \<ge> 675) \<and> ColAddress 675 = []"
  using ColAddress_out_of_range [of 0] ColAddress_out_of_range [of 675] by simp

text \<open>
  C10: for every column index in [27, 674] that is a multiple of 26, \<open>ColAddress\<close>
  returns two characters of which the second is \<open>@\<close>, the character before \<open>A\<close>: the
  result is not empty and is not made of letters only.
\<close>

theorem ColAddress_multiple_of_26:
  assumes "27 \<le> col" and "col \<le> 674" and "col mod 26 = 0"
  shows "length (ColAddress col) = 2 \<and> ColAddress col ! 1 = CHR ''@''
         \<and> ColAddress col \<noteq> [] \<and> \<not> list_all is_letter (ColAddress col)"
proof -
  have at: "char_of (64::int) = CHR ''@''"
    by code_simp
  have "ColAddress col = [char_of (64 + col div 26), CHR ''@'']"
    using assms by (simp add: ColAddress_two_letters at)
  moreover have "\<not> is_letter CHR ''@''"
    by (simp add: is_letter_def)
  ultimately show ?thesis by simp
qed

theorem ColAddress_multiple_of_26_witness:
  "(27::int) \<le> 52 \<and> (52::int) \<le> 674 \<and> (52::int) mod 26 = 0 \<and> ColAddress 52 = ''B@''
   \<and> \<not> list_all is_letter (ColAddress 52)"
proof -
  have "ColAddress 52 = ''B@''"
    by (simp add: ColAddress_def string_of_int_def signed_divide_int_def
        signed_modulo_int_def) code_simp
  then show ?thesis
    using ColAddress_multiple_of_26 [of 52] by simp
qed

section \<open>The operations\<close>

lemma check_google_auth_cases:
  obtains (cached) cl where "Client conf = Some cl" "check_google_auth w conf = (None, conf, [])"
  | (failed) err where "Client conf = None"
      "check_google_auth w conf = (Some err, conf, [Auth (GoogleCredentials conf)])"
  | (fresh) cl where "Client conf = None"
      "check_google_auth w conf = (None, conf\<lparr>Client := Some cl\<rparr>, [Auth (GoogleCredentials conf)])"
proof (cases "Client conf")
  case None
  show ?thesis
  proof (cases "googleAuth w (GoogleCredentials conf)")
    case (Inl err)
    with None have "check_google_auth w conf = (Some err, conf, [Auth (GoogleCredentials conf)])"
      by (simp add: check_google_auth_def)
    with None show ?thesis by (rule failed)
  next
    case (Inr cl)
    with None have "check_google_auth w conf =
        (None, conf\<lparr>Client := Some cl\<rparr>, [Auth (GoogleCredentials conf)])"
      by (simp add: check_google_auth_def)
    with None show ?thesis by (rule fresh)
  qed
next
  case (Some cl)
  then have "check_google_auth w conf = (None, conf, [])"
    by (simp add: check_google_auth_def)
  with Some show ?thesis by (rule cached)
qed

lemma check_google_auth_client:
  assumes "check_google_auth w conf = (None, conf', tr)"
  shows "\<exists>cl. Client conf' = Some cl"
  by (rule check_google_auth_cases [of conf w]) (use assms in auto)

lemma check_google_auth_SpreadsheetID:
  assumes "check_google_auth w conf = (e, conf', tr)"
  shows "SpreadsheetID conf' = SpreadsheetID conf"
  by (rule check_google_auth_cases [of conf w]) (use assms in auto)

lemma check_google_auth_only_sets_Client:
  assumes "check_google_auth w conf = (e, conf', tr)"
  shows "only_sets_Client conf conf' tr"
  by (rule check_google_auth_cases [of conf w])
    (use assms in \<open>auto simp add: only_sets_Client_def\<close>)

lemma only_sets_Client_snoc:
  "only_sets_Client c c' tr \<Longrightarrow> \<not> list_ex is_Auth es \<Longrightarrow> only_sets_Client c c' (tr @ es)"
  by (auto simp add: only_sets_Client_def)


lemma sheets_New_Some: "sheets_New (Some cl) = Inr cl"
  by (simp add: sheets_New_def)

text \<open>
  C6: whatever the configuration, a write of data with no rows, or whose first row
  has no columns (no keys), returns a nil error, leaves the configuration as it was
  and makes no call at all: it neither authenticates nor reaches the service. This
  holds for \<open>DataArrayToGoogleSpreadSheet\<close> and for \<open>DataMapToGoogleSpreadsheet\<close>.
\<close>

theorem empty_write_is_noop:
  "((data = [] \<or> data ! 0 = []) \<longrightarrow>
      DataArrayToGoogleSpreadSheet w conf sheet row col data = (Returns None, conf, []))
   \<and> ((rows = [] \<or> hd rows = []) \<longrightarrow>
      DataMapToGoogleSpreadsheet w conf sheet row col rows = (Returns None, conf, []))"
proof (intro conjI impI)
  assume "data = [] \<or> data ! 0 = []"
  then show "DataArrayToGoogleSpreadSheet w conf sheet row col data = (Returns None, conf, [])"
    by (auto simp add: DataArrayToGoogleSpreadSheet_def Let_def)
next
  assume "rows = [] \<or> hd rows = []"
  then show "DataMapToGoogleSpreadsheet w conf sheet row col rows = (Returns None, conf, [])"
    by (cases rows) (auto simp add: DataMapToGoogleSpreadsheet_def)
qed

theorem empty_write_is_noop_witness:
  "DataArrayToGoogleSpreadSheet example_world (example_conf ''full'') ''Sheet1'' 1 1 []
     = (Returns None, example_conf ''full'', [])
   \<and> DataArrayToGoogleSpreadSheet example_world (example_conf ''full'') ''Sheet1'' 1 1 [[], [VInt 1]]
     = (Returns None, example_conf ''full'', [])
   \<and> DataMapToGoogleSpreadsheet example_world (example_conf ''full'') ''Sheet1'' 1 1 []
     = (Returns None, example_conf ''full'', [])
   \<and> DataMapToGoogleSpreadsheet example_world (example_conf ''full'') ''Sheet1'' 1 1 [[]]
     = (Returns None, example_conf ''full'', [])"
  using empty_write_is_noop [of "[]" example_world "example_conf ''full''" "''Sheet1''" 1 1 "[]"]
    empty_write_is_noop [of "[[], [VInt 1]]" example_world "example_conf ''full''" "''Sheet1''" 1 1 "[[]]"]
  by simp

lemma example_auth:
  "check_google_auth example_world (example_conf sid) =
     (None, (example_conf sid)\<lparr>Client := Some (HttpClient 7)\<rparr>, [Auth ''key''])"
  by (simp add: check_google_auth_def googleAuth_def example_world_def example_conf_def)

text \<open>
  C7: when the client is there (cached, or just authenticated) and the get call
  answers without error, \<open>GoogleSpreadsheetToDataArray\<close> returns a nil array and the
  error \<open>Empty template\<close> if the answer has no rows, and otherwise returns the rows as
  they came, with a nil error.
\<close>

theorem read_empty_is_error:
  assumes "check_google_auth w conf = (None, conf', tr)"
    and "Client conf' = Some cl"
    and "Get_Do w cl (SpreadsheetID conf) sourceRange = Inr vals"
  shows "fst (GoogleSpreadsheetToDataArray w conf sourceRange) =
           (if length vals = 0 then Returns (None, Some (Error ''Empty template''))
            else Returns (Some vals, None))"
proof -
  have "SpreadsheetID conf' = SpreadsheetID conf"
    using assms(1) by (rule check_google_auth_SpreadsheetID)
  then show ?thesis
    using assms by (simp add: GoogleSpreadsheetToDataArray_def sheets_New_Some)
qed

theorem read_empty_is_error_witness:
  "fst (GoogleSpreadsheetToDataArray example_world (example_conf ''none'') ''Sheet1!A1:B2'')
     = Returns (None, Some (Error ''Empty template''))
   \<and> fst (GoogleSpreadsheetToDataArray example_world (example_conf ''full'') ''Sheet1!A1:B2'')
     = Returns (Some [[VString ''x'']], None)"
proof -
  have "Get_Do example_world (HttpClient 7) (SpreadsheetID (example_conf ''none'')) ''Sheet1!A1:B2''
          = Inr []"
    by (simp add: example_world_def example_conf_def)
  moreover have "Get_Do example_world (HttpClient 7) (SpreadsheetID (example_conf ''full''))
      ''Sheet1!A1:B2'' = Inr [[VString ''x'']]"
    by (simp add: example_world_def example_conf_def)
  ultimately show ?thesis
    using read_empty_is_error [OF example_auth, of "''none''" "HttpClient 7" "''Sheet1!A1:B2''" "[]"]
      read_empty_is_error [OF example_auth, of "''full''" "HttpClient 7" "''Sheet1!A1:B2''"
        "[[VString ''x'']]"]
    by simp
qed





lemma ClearRange_config:
  "only_sets_Client conf (fst (snd (ClearRange w conf r))) (snd (snd (ClearRange w conf r)))"
proof -
  obtain e conf' tr where c: "check_google_auth w conf = (e, conf', tr)"
    by (cases "check_google_auth w conf") auto
  then have "only_sets_Client conf conf' tr"
    by (rule check_google_auth_only_sets_Client)
  then show ?thesis
    using c
    by (auto simp add: ClearRange_def only_sets_Client_snoc split: option.splits sum.splits)
qed

lemma DataArrayToGoogleSpreadSheet_config:
  "only_sets_Client conf (fst (snd (DataArrayToGoogleSpreadSheet w conf sheet row col data)))
     (snd (snd (DataArrayToGoogleSpreadSheet w conf sheet row col data)))"
proof -
  obtain e conf' tr where c: "check_google_auth w conf = (e, conf', tr)"
    by (cases "check_google_auth w conf") auto
  then have o: "only_sets_Client conf conf' tr"
    by (rule check_google_auth_only_sets_Client)
  have n: "only_sets_Client conf conf []"
    by (simp add: only_sets_Client_def)
  show ?thesis
    using c o n
    by (auto simp add: DataArrayToGoogleSpreadSheet_def Let_def only_sets_Client_snoc
        split: option.splits sum.splits)
qed

lemma DataMapToGoogleSpreadsheet_config:
  "only_sets_Client conf (fst (snd (DataMapToGoogleSpreadsheet w conf sheet row col rows)))
     (snd (snd (DataMapToGoogleSpreadsheet w conf sheet row col rows)))"
proof -
  have n: "only_sets_Client conf conf []"
    by (simp add: only_sets_Client_def)
  show ?thesis
    using n
    by (simp add: DataMapToGoogleSpreadsheet_def DataArrayToGoogleSpreadSheet_config
        split: list.splits)
qed

lemma GoogleSpreadsheetToDataArray_config:
  "only_sets_Client conf (fst (snd (GoogleSpreadsheetToDataArray w conf r)))
     (snd (snd (GoogleSpreadsheetToDataArray w conf r)))"
proof -
  obtain e conf' tr where c: "check_google_auth w conf = (e, conf', tr)"
    by (cases "check_google_auth w conf") auto
  then have "only_sets_Client conf conf' tr"
    by (rule check_google_auth_only_sets_Client)
  then show ?thesis
    using c
    by (auto simp add: GoogleSpreadsheetToDataArray_def Let_def only_sets_Client_snoc
        split: option.splits sum.splits go_error.splits)
qed

lemma ClearSheet_config:
  "only_sets_Client conf (fst (snd (ClearSheet w conf r))) (snd (snd (ClearSheet w conf r)))"
proof -
  obtain e conf' tr where c: "check_google_auth w conf = (e, conf', tr)"
    by (cases "check_google_auth w conf") auto
  then have "only_sets_Client conf conf' tr"
    by (rule check_google_auth_only_sets_Client)
  then show ?thesis
    using c
    by (auto simp add: ClearSheet_def Let_def only_sets_Client_snoc
        split: option.splits sum.splits go_error.splits)
qed

text \<open>
  C9: every operation (the two clears, the two writes and the read) treats the
  configuration in the same way: if \<open>Client\<close> is already set, the configuration comes
  back unchanged and no authentication is made; in every case the configuration
  comes back either unchanged or with \<open>Client\<close>, absent before, now set, and every
  other field as it was.
\<close>

theorem operations_only_set_Client:
  "only_sets_Client conf (fst (snd (ClearRange w conf r))) (snd (snd (ClearRange w conf r)))
   \<and> only_sets_Client conf (fst (snd (DataMapToGoogleSpreadsheet w conf sheet row col rows)))
       (snd (snd (DataMapToGoogleSpreadsheet w conf sheet row col rows)))
   \<and> only_sets_Client conf (fst (snd (DataArrayToGoogleSpreadSheet w conf sheet row col data)))
       (snd (snd (DataArrayToGoogleSpreadSheet w conf sheet row col data)))
   \<and> only_sets_Client conf (fst (snd (GoogleSpreadsheetToDataArray w conf r)))
       (snd (snd (GoogleSpreadsheetToDataArray w conf r)))
   \<and> only_sets_Client conf (fst (snd (ClearSheet w conf r))) (snd (snd (ClearSheet w conf r)))"
  by (simp only: ClearRange_config DataMapToGoogleSpreadsheet_config
      DataArrayToGoogleSpreadSheet_config GoogleSpreadsheetToDataArray_config
      ClearSheet_config simp_thms)


theorem operations_only_set_Client_witness:
  "Client \<lparr>GoogleCredentials = ''key'', SpreadsheetID = ''full'', Client = Some (HttpClient 3)\<rparr>
     \<noteq> None
   \<and> fst (snd (GoogleSpreadsheetToDataArray example_world
        \<lparr>GoogleCredentials = ''key'', SpreadsheetID = ''full'', Client = Some (HttpClient 3)\<rparr>
        ''Sheet1!A1:B2''))
     = \<lparr>GoogleCredentials = ''key'', SpreadsheetID = ''full'', Client = Some (HttpClient 3)\<rparr>
   \<and> \<not> list_ex is_Auth (snd (snd (GoogleSpreadsheetToDataArray example_world
        \<lparr>GoogleCredentials = ''key'', SpreadsheetID = ''full'', Client = Some (HttpClient 3)\<rparr>
        ''Sheet1!A1:B2'')))"
  using operations_only_set_Client [of
      "\<lparr>GoogleCredentials = ''key'', SpreadsheetID = ''full'', Client = Some (HttpClient 3)\<rparr>"
      example_world "''Sheet1!A1:B2''" "''Sheet1''" 1 1 "[]" "[]"]
  by (simp add: only_sets_Client_def)

lemma update_ranges_append:
  "update_ranges (xs @ ys) = update_ranges xs @ update_ranges ys"
  by (induction xs rule: update_ranges.induct) simp_all

lemma check_google_auth_no_update:
  assumes "check_google_auth w conf = (e, conf', tr)"
  shows "update_ranges tr = []"
  by (rule check_google_auth_cases [of conf w]) (use assms in auto)

lemma go_add_exact:
  "- (2 ^ 63) \<le> a + b \<Longrightarrow> a + b < 2 ^ 63 \<Longrightarrow> go_add a b = a + b"
  by (simp add: go_add_def signed_take_bit_int_eq_self)

lemma ColAddress_go_add:
  assumes "- (2 ^ 63) \<le> destCol" and "destCol < 2 ^ 63" and "0 \<le> n" and "n < 2 ^ 63"
  shows "ColAddress (go_add destCol n) = ColAddress (destCol + n)"
proof (cases "destCol + n < 2 ^ 63")
  case True
  then show ?thesis
    using assms by (simp add: go_add_exact)
next
  case False
  then have big: "2 ^ 63 \<le> destCol + n" by simp
  then have "signed_take_bit 63 (destCol + n) \<le> destCol + n - 2 ^ Suc 63"
    by (rule signed_take_bit_int_less_eq)
  then have "go_add destCol n < 1"
    using assms by (simp add: go_add_def)
  moreover have "675 \<le> destCol + n"
    using big by simp
  ultimately show ?thesis
    by (simp add: ColAddress_def)
qed

lemma go_add_small: "go_add 2 2 = 4" "go_add 2 3 = 5"
  by (simp_all add: go_add_def)

lemma ColAddress_2_4: "ColAddress 2 = ''B''" "ColAddress 4 = ''D''"
  by (simp_all add: ColAddress_def string_of_int_def) code_simp+

lemma Itoa_2_5: "Itoa 2 = ''2''" "Itoa 5 = ''5''"
  by (simp_all add: Itoa_def digits.simps) code_simp+

text \<open>
  C3: for data with at least one row and at least one column in its first row, the
  destination range of a write is the sheet name, \<open>!\<close>, \<open>ColAddress destCol\<close>, the
  decimal \<open>destRow\<close>, \<open>:\<close>, \<open>ColAddress (destCol + nbCols)\<close> and the decimal
  \<open>destRow + nbRows\<close>, the sums being Go's; this is the range of the one update call
  the operation makes once it has a client. Where the start row and column are Go
  integers and the end row does not overflow, the sums are the mathematical ones.
  The example after the theorem writes 3 rows and 2 columns at row 2, column 2 of \<open>Sheet1\<close>:
  its range ends at column 4, row 5.
\<close>

theorem write_range:
  assumes "data \<noteq> []" and "data ! 0 \<noteq> []"
  shows "myRange destSheet destRow destCol data =
           destSheet @ ''!'' @ ColAddress destCol @ Itoa destRow @ '':'' @
           ColAddress (go_add destCol (int (length (data ! 0)))) @
           Itoa (go_add destRow (int (length data)))
         \<and> (fst (check_google_auth w conf) = None \<longrightarrow>
              update_ranges (snd (snd (DataArrayToGoogleSpreadSheet w conf destSheet destRow
                 destCol data)))
              = [myRange destSheet destRow destCol data])
         \<and> (- (2 ^ 63) \<le> destCol \<and> destCol < 2 ^ 63 \<and> int (length (data ! 0)) < 2 ^ 63
              \<and> - (2 ^ 63) \<le> destRow \<and> destRow + int (length data) < 2 ^ 63 \<longrightarrow>
              myRange destSheet destRow destCol data =
                destSheet @ ''!'' @ ColAddress destCol @ Itoa destRow @ '':'' @
                ColAddress (destCol + int (length (data ! 0))) @
                Itoa (destRow + int (length data)))"
proof (intro conjI impI)
  show "myRange destSheet destRow destCol data =
           destSheet @ ''!'' @ ColAddress destCol @ Itoa destRow @ '':'' @
           ColAddress (go_add destCol (int (length (data ! 0)))) @
           Itoa (go_add destRow (int (length data)))"
    by (simp add: myRange_def Let_def)
next
  assume a: "fst (check_google_auth w conf) = None"
  then obtain conf' tr where c: "check_google_auth w conf = (None, conf', tr)"
    by (cases "check_google_auth w conf") auto
  then obtain cl where cl: "Client conf' = Some cl"
    using check_google_auth_client by blast
  have "update_ranges tr = []"
    using c by (rule check_google_auth_no_update)
  then show "update_ranges (snd (snd (DataArrayToGoogleSpreadSheet w conf destSheet destRow
                 destCol data))) = [myRange destSheet destRow destCol data]"
    using assms c cl
    by (simp add: DataArrayToGoogleSpreadSheet_def Let_def sheets_New_Some update_ranges_append
        split: sum.splits)
next
  assume r: "- (2 ^ 63) \<le> destCol \<and> destCol < 2 ^ 63 \<and> int (length (data ! 0)) < 2 ^ 63
              \<and> - (2 ^ 63) \<le> destRow \<and> destRow + int (length data) < 2 ^ 63"
  then have "ColAddress (go_add destCol (int (length (data ! 0))))
      = ColAddress (destCol + int (length (data ! 0)))"
    by (simp add: ColAddress_go_add)
  moreover have "go_add destRow (int (length data)) = destRow + int (length data)"
    using r by (simp add: go_add_exact)
  ultimately show "myRange destSheet destRow destCol data =
                destSheet @ ''!'' @ ColAddress destCol @ Itoa destRow @ '':'' @
                ColAddress (destCol + int (length (data ! 0))) @
                Itoa (destRow + int (length data))"
    by (simp add: myRange_def Let_def)
qed

theorem write_range_witness:
  "myRange ''Sheet1'' 2 2 [[VInt 1, VInt 2], [VInt 3, VInt 4], [VInt 5, VInt 6]]
     = ''Sheet1!'' @ ColAddress 2 @ Itoa 2 @ '':'' @ ColAddress 4 @ Itoa 5
   \<and> myRange ''Sheet1'' 2 2 [[VInt 1, VInt 2], [VInt 3, VInt 4], [VInt 5, VInt 6]]
     = ''Sheet1!B2:D5''
   \<and> fst (check_google_auth example_world (example_conf ''full'')) = None
   \<and> update_ranges (snd (snd (DataArrayToGoogleSpreadSheet example_world (example_conf ''full'')
        ''Sheet1'' 2 2 [[VInt 1, VInt 2], [VInt 3, VInt 4], [VInt 5, VInt 6]])))
     = [''Sheet1!B2:D5'']"
  using write_range [of "[[VInt 1, VInt 2], [VInt 3, VInt 4], [VInt 5, VInt 6]]" "''Sheet1''"
      2 2 example_world "example_conf ''full''"]
  by (simp add: example_auth go_add_small ColAddress_2_4 Itoa_2_5)

section \<open>Shaping rows given as maps\<close>

lemma valueData_length: "length (valueData first data) = length data + 1"
  by (simp add: valueData_def Let_def)

lemma valueData_header: "valueData first data ! 0 = map VString (sort (map fst first))"
  by (simp add: valueData_def Let_def)

lemma valueData_row:
  "i < length data \<Longrightarrow>
   valueData first data ! Suc i =
     map (\<lambda>k. VString (String (fst (Scan \<lparr>String = [], Valid = False\<rparr>
                                    (map_index (data ! i) k)))))
       (sort (map fst first))"
  by (simp add: valueData_def Let_def)

lemma sort_keys:
  assumes "distinct (map fst first)"
  shows "sort (map fst first) = sorted_list_of_set (fst ` set first)"
proof -
  have "sorted_list_of_set (set (map fst first)) = sort (remdups (map fst first))"
    by (rule sorted_list_of_set_sort_remdups)
  also have "remdups (map fst first) = map fst first"
    using assms by (rule distinct_remdups_id)
  finally show ?thesis by simp
qed

lemma example_keys: "sorted_list_of_set (fst ` set [(''b'', VInt 1), (''a'', VInt 2)]) = [''a'', ''b'']"
  using sort_keys [of "[(''b'', VInt 1), (''a'', VInt 2)]", symmetric] by simp

text \<open>
  C4: for a non-empty sequence of rows whose first row has at least one key (the
  keys of a map being distinct), \<open>DataMapToGoogleSpreadsheet\<close> writes the shaped
  array \<open>valueData\<close>, which has one row more than the input; its row 0 is the keys of
  the first row in ascending lexicographic order, and its row \<open>i + 1\<close> holds, in that
  column order, the values of input row \<open>i\<close> scanned into strings. The example is
  the input \<open>[{"b": 1, "a": 2}]\<close>, shaped into header \<open>["a", "b"]\<close> and row
  \<open>["2", "1"]\<close>.
\<close>

theorem shaping_header_and_rows:
  assumes "data = first # rest" and "first \<noteq> []" and "distinct (map fst first)"
  shows "DataMapToGoogleSpreadsheet w conf sheet row col data
           = DataArrayToGoogleSpreadSheet w conf sheet row col (valueData first data)
         \<and> length (valueData first data) = length data + 1
         \<and> valueData first data ! 0 = map VString (sorted_list_of_set (fst ` set first))
         \<and> (\<forall>i<length data. valueData first data ! (i + 1) =
               map (\<lambda>k. VString (String (fst (Scan \<lparr>String = [], Valid = False\<rparr>
                                              (map_index (data ! i) k)))))
                 (sorted_list_of_set (fst ` set first)))"
proof -
  have k: "sort (map fst first) = sorted_list_of_set (fst ` set first)"
    using assms(3) by (rule sort_keys)
  have "DataMapToGoogleSpreadsheet w conf sheet row col data
           = DataArrayToGoogleSpreadSheet w conf sheet row col (valueData first data)"
    using assms(1,2) by (simp add: DataMapToGoogleSpreadsheet_def)
  moreover have "\<forall>i<length data. valueData first data ! (i + 1) =
               map (\<lambda>k. VString (String (fst (Scan \<lparr>String = [], Valid = False\<rparr>
                                              (map_index (data ! i) k)))))
                 (sorted_list_of_set (fst ` set first))"
    by (simp add: valueData_row k)
  ultimately show ?thesis
    by (simp only: valueData_length valueData_header k simp_thms)
qed

theorem shaping_header_and_rows_witness:
  "[(''b'', VInt 1), (''a'', VInt 2)] \<noteq> [] \<and> distinct (map fst [(''b'', VInt 1), (''a'', VInt 2)])
   \<and> valueData [(''b'', VInt 1), (''a'', VInt 2)] [[(''b'', VInt 1), (''a'', VInt 2)]] ! 0
       = [VString ''a'', VString ''b'']
   \<and> valueData [(''b'', VInt 1), (''a'', VInt 2)] [[(''b'', VInt 1), (''a'', VInt 2)]] ! 1
       = [VString ''2'', VString ''1'']"
proof -
  have i: "Itoa 1 = ''1''" "Itoa 2 = ''2''"
    by (simp_all add: Itoa_def digits.simps) code_simp+
  show ?thesis
    using shaping_header_and_rows [of "[[(''b'', VInt 1), (''a'', VInt 2)]]"
        "[(''b'', VInt 1), (''a'', VInt 2)]" "[]" example_world "example_conf ''full''"
        "''Sheet1''" 1 1]
    by (simp add: example_keys map_index_def Scan_def i)
qed


lemma DataArrayToGoogleSpreadSheet_returns:
  "fst (DataArrayToGoogleSpreadSheet w conf sheet row col data) \<noteq> Panics"
proof -
  obtain e conf' tr where c: "check_google_auth w conf = (e, conf', tr)"
    by (cases "check_google_auth w conf") auto
  show ?thesis
  proof (cases e)
    case None
    with c obtain cl where "Client conf' = Some cl"
      using check_google_auth_client by blast
    with c None show ?thesis
      by (simp add: DataArrayToGoogleSpreadSheet_def Let_def sheets_New_Some split: sum.splits)
  next
    case (Some err)
    with c show ?thesis
      by (simp add: DataArrayToGoogleSpreadSheet_def Let_def)
  qed
qed

lemma DataMapToGoogleSpreadsheet_returns:
  "fst (DataMapToGoogleSpreadsheet w conf sheet row col rows) \<noteq> Panics"
  by (simp add: DataMapToGoogleSpreadsheet_def DataArrayToGoogleSpreadSheet_returns
      split: list.splits)

lemma Scan_nil:
  "map_of m k = None \<or> map_of m k = Some VNil \<Longrightarrow>
   Scan ns (map_index m k) = (\<lparr>String = [], Valid = False\<rparr>, None)"
  by (auto simp add: Scan_def map_index_def)

text \<open>
  C5: in the shaped output, the cell of input row \<open>i\<close> in the column headed by key
  \<open>k\<close> is the empty string whenever that row has no entry for \<open>k\<close>, or has nil there;
  the scan of such a value reports no error, the shaped row keeps the full number of
  columns, and the operation does not panic.
\<close>

theorem missing_key_gives_empty_cell:
  assumes "data = first # rest"
    and "i < length data" and "j < length first"
    and "valueData first data ! 0 ! j = VString k"
    and "map_of (data ! i) k = None \<or> map_of (data ! i) k = Some VNil"
  shows "valueData first data ! (i + 1) ! j = VString []
         \<and> snd (Scan \<lparr>String = [], Valid = False\<rparr> (map_index (data ! i) k)) = None
         \<and> length (valueData first data ! (i + 1)) = length first
         \<and> fst (DataMapToGoogleSpreadsheet w conf sheet row col data) \<noteq> Panics"
proof -
  have j: "j < length (sort (map fst first))"
    using assms(3) by simp
  then have "sort (map fst first) ! j = k"
    using assms(4) by (simp add: valueData_header)
  then have "valueData first data ! (i + 1) ! j =
      VString (String (fst (Scan \<lparr>String = [], Valid = False\<rparr> (map_index (data ! i) k))))"
    using assms(2) j by (simp add: valueData_row)
  moreover have "length (valueData first data ! (i + 1)) = length first"
    using assms(2) by (simp add: valueData_row)
  ultimately show ?thesis
    using assms(5) by (simp add: Scan_nil DataMapToGoogleSpreadsheet_returns)
qed

theorem missing_key_gives_empty_cell_witness:
  "valueData [(''b'', VInt 1), (''a'', VInt 2)]
     [[(''b'', VInt 1), (''a'', VInt 2)], [(''b'', VInt 3)], [(''a'', VNil), (''b'', VInt 3)]]
   ! 0 ! 0 = VString ''a''
   \<and> map_of [(''b'', VInt 3)] ''a'' = None
   \<and> valueData [(''b'', VInt 1), (''a'', VInt 2)]
     [[(''b'', VInt 1), (''a'', VInt 2)], [(''b'', VInt 3)], [(''a'', VNil), (''b'', VInt 3)]]
   ! (1 + 1) ! 0 = VString []
   \<and> valueData [(''b'', VInt 1), (''a'', VInt 2)]
     [[(''b'', VInt 1), (''a'', VInt 2)], [(''b'', VInt 3)], [(''a'', VNil), (''b'', VInt 3)]]
   ! (2 + 1) ! 0 = VString []"
proof -
  have h: "valueData [(''b'', VInt 1), (''a'', VInt 2)]
     [[(''b'', VInt 1), (''a'', VInt 2)], [(''b'', VInt 3)], [(''a'', VNil), (''b'', VInt 3)]]
   ! 0 ! 0 = VString ''a''"
    by (simp add: valueData_header)
  show ?thesis
    using h
      missing_key_gives_empty_cell [OF refl _ _ h, of 1 example_world "example_conf ''full''"
        "''Sheet1''" 1 1]
      missing_key_gives_empty_cell [OF refl _ _ h, of 2 example_world "example_conf ''full''"
        "''Sheet1''" 1 1]
    by simp
qed

end
